theory Spec2Isabelle
  imports Complex_Main "HOL-Library.Word" "HOL-Library.Multiset" "HOL-Library.Sublist"
    "HOL-Library.AList"
begin

unbundle bit_operations_syntax

chapter \<open>The model\<close>

section \<open>JavaScript values\<close>

text \<open>
  A number is an IEEE double. Its finite values are modelled as exact reals, next to
  \<^verbatim>\<open>NaN\<close> and the two infinities: rounding, overflow to Infinity and the sign of
  zero are outside this model. A string is the list of its code units; the model covers
  the code units below 256. An object is the list of its own properties in insertion
  order.
\<close>

datatype jnum = Fin real | NaN | PosInf | NegInf

datatype jsval =
    JUndefined
  | JNull
  | JBool bool
  | JNum jnum
  | JStr string
  | JArr "jsval list"
  | JObj "(string \<times> jsval) list"

text \<open>A thrown value: an \<^verbatim>\<open>Error\<close>, a \<^verbatim>\<open>TypeError\<close> or a \<^verbatim>\<open>SyntaxError\<close>, with its message.\<close>

datatype js_error = JsError string | JsTypeError string | JsSyntaxError string

text \<open>
  Property read \<^verbatim>\<open>v.k\<close> on a value that is not \<^verbatim>\<open>null\<close> or
  \<^verbatim>\<open>undefined\<close>. The program reads no index and no built-in property of an array
  or a string from untrusted data, so these read as \<^verbatim>\<open>undefined\<close>.
\<close>

fun get :: "jsval \<Rightarrow> string \<Rightarrow> jsval" where
  "get (JObj kvs) k = (case map_of kvs k of None \<Rightarrow> JUndefined | Some v \<Rightarrow> v)"
| "get v k = JUndefined"


fun truthy :: "jsval \<Rightarrow> bool" where
  "truthy JUndefined = False"
| "truthy JNull = False"
| "truthy (JBool b) = b"
| "truthy (JNum n) = (n \<noteq> Fin 0 \<and> n \<noteq> NaN)"
| "truthy (JStr s) = (s \<noteq> [])"
| "truthy (JArr xs) = True"
| "truthy (JObj kvs) = True"

text \<open>\<^verbatim>\<open>typeof v === 'object'\<close>\<close>

fun typeof_object :: "jsval \<Rightarrow> bool" where
  "typeof_object JNull = True"
| "typeof_object (JArr xs) = True"
| "typeof_object (JObj kvs) = True"
| "typeof_object v = False"

definition nullish :: "jsval \<Rightarrow> bool" where
  "nullish v = (v = JUndefined \<or> v = JNull)"

text \<open>\<^verbatim>\<open>a || b\<close>, \<^verbatim>\<open>a ?? b\<close>, and the default of a destructuring pattern.\<close>

definition or_else :: "jsval \<Rightarrow> jsval \<Rightarrow> jsval" where
  "or_else a b = (if truthy a then a else b)"

definition nullish_else :: "jsval \<Rightarrow> jsval \<Rightarrow> jsval" where
  "nullish_else a b = (if nullish a then b else a)"

definition default_to :: "jsval \<Rightarrow> jsval \<Rightarrow> jsval" where
  "default_to v d = (if v = JUndefined then d else v)"

text \<open>
  The own properties an object spread copies, and an assignment to one property: an
  existing key keeps its place, a new key goes last.
\<close>

fun own_props :: "jsval \<Rightarrow> (string \<times> jsval) list" where
  "own_props (JObj kvs) = kvs"
| "own_props v = []"

definition set_prop :: "string \<Rightarrow> jsval \<Rightarrow> (string \<times> jsval) list \<Rightarrow> (string \<times> jsval) list" where
  "set_prop k v kvs = AList.update k v kvs"


subsection \<open>Strings\<close>

text \<open>White space of \<^verbatim>\<open>trim\<close>, \<^verbatim>\<open>parseFloat\<close> and the regular expression class \<^verbatim>\<open>\s\<close>.\<close>

definition is_space :: "char \<Rightarrow> bool" where
  "is_space c = (c \<in> set [CHR 0x09, CHR 0x0A, CHR 0x0B, CHR 0x0C, CHR 0x0D, CHR 0x20, CHR 0xA0])"

definition trim :: "string \<Rightarrow> string" where
  "trim s = rev (dropWhile is_space (rev (dropWhile is_space s)))"

text \<open>
  Case conversion on the ASCII letters. A code unit from 128 on is left as it is: its
  JavaScript conversion is never an ASCII letter, digit or underscore.
\<close>

definition upper_char :: "char \<Rightarrow> char" where
  "upper_char c =
     (case map_of (zip ''abcdefghijklmnopqrstuvwxyz'' ''ABCDEFGHIJKLMNOPQRSTUVWXYZ'') c of
        Some u \<Rightarrow> u
      | None \<Rightarrow> c)"

definition toUpperCase :: "string \<Rightarrow> string" where
  "toUpperCase s = map upper_char s"

definition lower_char :: "char \<Rightarrow> char" where
  "lower_char c =
     (case map_of (zip ''ABCDEFGHIJKLMNOPQRSTUVWXYZ'' ''abcdefghijklmnopqrstuvwxyz'') c of
        Some l \<Rightarrow> l
      | None \<Rightarrow> c)"

definition toLowerCase :: "string \<Rightarrow> string" where
  "toLowerCase s = map lower_char s"

fun join_comma :: "string list \<Rightarrow> string" where
  "join_comma [] = []"
| "join_comma [s] = s"
| "join_comma (s # t # ss) = s @ '','' @ join_comma (t # ss)"

text \<open>
  \<^verbatim>\<open>String(v)\<close>, as \<^verbatim>\<open>toString()\<close> and a template literal compute it. The text
  of a number is a parameter \<open>nts\<close> of the model: no property below depends on it.
\<close>

fun to_string :: "(jnum \<Rightarrow> string) \<Rightarrow> jsval \<Rightarrow> string" where
  "to_string nts JUndefined = ''undefined''"
| "to_string nts JNull = ''null''"
| "to_string nts (JBool b) = (if b then ''true'' else ''false'')"
| "to_string nts (JNum n) = nts n"
| "to_string nts (JStr s) = s"
| "to_string nts (JArr xs) =
     join_comma (map (\<lambda>x. if x = JUndefined \<or> x = JNull then [] else to_string nts x) xs)"
| "to_string nts (JObj kvs) = ''[object Object]''"

subsection \<open>parseFloat\<close>

text \<open>
  \<^verbatim>\<open>parseFloat\<close> skips leading white space and reads the longest prefix that is a
  decimal literal: a sign, then \<^verbatim>\<open>Infinity\<close> or digits with an optional fraction
  and an optional exponent. Without such a prefix the result is \<^verbatim>\<open>NaN\<close>.
\<close>

definition is_digit :: "char \<Rightarrow> bool" where
  "is_digit c = (c \<in> set ''0123456789'')"

definition digits_val :: "string \<Rightarrow> nat" where
  "digits_val ds = foldl (\<lambda>a c. 10 * a + (of_char c - 48)) 0 ds"

definition scale10 :: "real \<Rightarrow> int \<Rightarrow> real" where
  "scale10 m e = (if e < 0 then m / 10 ^ nat (- e) else m * 10 ^ nat e)"

text \<open>The exponent part: \<^verbatim>\<open>e\<close> or \<^verbatim>\<open>E\<close>, an optional sign, at least one digit.\<close>

definition exponent_part :: "string \<Rightarrow> int" where
  "exponent_part r =
     (case r of
        [] \<Rightarrow> 0
      | c # r1 \<Rightarrow>
          if c = CHR ''e'' \<or> c = CHR ''E'' then
            (case r1 of
               [] \<Rightarrow> 0
             | s # r2 \<Rightarrow>
                 if s = CHR ''-'' then - int (digits_val (takeWhile is_digit r2))
                 else if s = CHR ''+'' then int (digits_val (takeWhile is_digit r2))
                 else int (digits_val (takeWhile is_digit r1)))
          else 0)"

definition parseFloat_str :: "string \<Rightarrow> jnum" where
  "parseFloat_str s =
     (let t = dropWhile is_space s;
          neg = (t \<noteq> [] \<and> hd t = CHR ''-'');
          u = (if t \<noteq> [] \<and> (hd t = CHR ''-'' \<or> hd t = CHR ''+'') then tl t else t)
      in if prefix ''Infinity'' u then (if neg then NegInf else PosInf)
         else
           let ip = takeWhile is_digit u;
               r1 = dropWhile is_digit u;
               dot = (r1 \<noteq> [] \<and> hd r1 = CHR ''.'');
               fp = (if dot then takeWhile is_digit (tl r1) else []);
               r2 = (if dot then dropWhile is_digit (tl r1) else r1)
           in if ip = [] \<and> fp = [] then NaN
              else
                let mant = real (digits_val ip) + real (digits_val fp) / 10 ^ length fp
                in Fin (scale10 (if neg then - mant else mant) (exponent_part r2)))"

text \<open>
  \<^verbatim>\<open>parseFloat(v)\<close> converts its argument to a string first. The text of a number
  parses back to the number, so a number is returned as it is.
\<close>

definition parseFloat_val :: "(jnum \<Rightarrow> string) \<Rightarrow> jsval \<Rightarrow> jnum" where
  "parseFloat_val nts v = (case v of JNum n \<Rightarrow> n | _ \<Rightarrow> parseFloat_str (to_string nts v))"

section \<open>Decision normalisation (ragAgent.js, normalizeDecision)\<close>

text \<open>
  The parts of \<^verbatim>\<open>normalizeDecision\<close>, each the expression of the source:
  the candidate (the payload, or the object under its \<^verbatim>\<open>decision\<close> key),
  \<^verbatim>\<open>(candidate.action || '').toString().trim().toUpperCase()\<close>,
  \<^verbatim>\<open>candidate.reasoning ?? candidate.explanation ?? ''\<close>,
  the clamped \<^verbatim>\<open>Number.parseFloat(candidate.confidence ?? 0)\<close>,
  \<^verbatim>\<open>(candidate.symbol || candidate.ticker || '').toString().trim()\<close> and
  \<^verbatim>\<open>candidate.quantity ?? candidate.size ?? candidate.amount\<close>, parsed when it is
  a string.
\<close>

definition candidate_of :: "jsval \<Rightarrow> jsval" where
  "candidate_of decision =
     (if typeof_object (get decision ''decision'') \<and> get decision ''decision'' \<noteq> JNull
      then get decision ''decision'' else decision)"

definition action_of :: "(jnum \<Rightarrow> string) \<Rightarrow> jsval \<Rightarrow> string" where
  "action_of nts candidate =
     toUpperCase (trim (to_string nts (or_else (get candidate ''action'') (JStr []))))"

definition reasoning_of :: "jsval \<Rightarrow> jsval" where
  "reasoning_of candidate =
     nullish_else (get candidate ''reasoning'')
       (nullish_else (get candidate ''explanation'') (JStr []))"

definition confidence_of :: "(jnum \<Rightarrow> string) \<Rightarrow> jsval \<Rightarrow> real" where
  "confidence_of nts candidate =
     (case parseFloat_val nts (nullish_else (get candidate ''confidence'') (JNum (Fin 0))) of
        Fin confidenceValue \<Rightarrow> max 0 (min 1 confidenceValue)
      | _ \<Rightarrow> 0)"

definition symbol_of :: "(jnum \<Rightarrow> string) \<Rightarrow> jsval \<Rightarrow> string" where
  "symbol_of nts candidate =
     trim (to_string nts
       (or_else (get candidate ''symbol'') (or_else (get candidate ''ticker'') (JStr []))))"

definition quantity_of :: "jsval \<Rightarrow> jsval" where
  "quantity_of candidate =
     (let rawQuantity =
            nullish_else (get candidate ''quantity'')
              (nullish_else (get candidate ''size'') (get candidate ''amount''))
      in case rawQuantity of JStr s \<Rightarrow> JNum (parseFloat_str s) | _ \<Rightarrow> rawQuantity)"

text \<open>\<^verbatim>\<open>Number.isFinite(quantity) && !(quantity <= 0)\<close>\<close>

fun positive_finite :: "jsval \<Rightarrow> bool" where
  "positive_finite (JNum (Fin q)) = (\<not> q \<le> 0)"
| "positive_finite v = False"

definition normalizeDecision :: "(jnum \<Rightarrow> string) \<Rightarrow> jsval \<Rightarrow> js_error + jsval" where
  "normalizeDecision nts decision =
     (if \<not> truthy decision \<or> \<not> typeof_object decision
      then Inl (JsError ''Decision payload must be an object'')
      else
        let candidate = candidate_of decision;
            action = action_of nts candidate
        in if action = [] then Inl (JsError ''Decision is missing an action'')
           else if action \<notin> set [''BUY'', ''SELL'', ''HOLD'']
           then Inl (JsError (''Unsupported decision action: '' @ action))
           else
             let normalized =
                   set_prop ''confidence'' (JNum (Fin (confidence_of nts candidate)))
                     (set_prop ''reasoning'' (reasoning_of candidate)
                       (set_prop ''action'' (JStr action) (own_props candidate)))
             in if action = ''BUY'' \<or> action = ''SELL'' then
                  let symbol = symbol_of nts candidate
                  in if symbol = []
                     then Inl (JsError (''Decision action '' @ action @ '' requires a symbol''))
                     else
                       let rawQuantity = quantity_of candidate
                       in if \<not> positive_finite rawQuantity
                          then Inl (JsError (''Decision action '' @ action
                                              @ '' requires a positive quantity''))
                          else Inr (JObj (set_prop ''quantity'' rawQuantity
                                            (set_prop ''symbol'' (JStr symbol) normalized)))
                else Inr (JObj (set_prop ''quantity'' (JNum (Fin 0))
                                  (set_prop ''symbol''
                                     (nullish_else (get candidate ''symbol'') JNull)
                                     normalized))))"

section \<open>The order built from a decision (tradingEngine.js, executeDecision)\<close>

text \<open>
  \<^verbatim>\<open>executeDecision\<close> up to and including its step "Prepare order": the
  destructuring of the decision with the default \<^verbatim>\<open>order_type = 'MARKET'\<close>, the two
  early returns (their \<^verbatim>\<open>reason\<close> on the left) and the order object handed to
  validation and to the exchange.
\<close>

record js_order =
  o_pair :: jsval
  o_side :: jsval
  o_order_type :: jsval
  o_quantity :: jnum
  o_price :: "jnum option"

definition executeDecision_order :: "(jnum \<Rightarrow> string) \<Rightarrow> jsval \<Rightarrow> string + js_order" where
  "executeDecision_order nts decision =
     (let action = get decision ''action'';
          symbol = get decision ''symbol'';
          qty = get decision ''quantity'';
          prc = get decision ''price'';
          otype = default_to (get decision ''order_type'') (JStr ''MARKET'')
      in if action = JStr ''HOLD'' then Inl ''HOLD decision''
         else if \<not> truthy symbol \<or> \<not> truthy qty then Inl ''Invalid decision parameters''
         else Inr \<lparr>o_pair = symbol, o_side = action, o_order_type = otype,
                   o_quantity = parseFloat_val nts qty,
                   o_price = (if truthy prc then Some (parseFloat_val nts prc) else None)\<rparr>)"

section \<open>Risk management (riskManager.js)\<close>


record order =
  pair :: "string option"
  side :: "string option"
  quantity :: "real option"
  price :: "real option"
  order_type :: "string option"



















section \<open>The strategy store (vectorStore.js)\<close>

subsection \<open>Fingerprints\<close>

text \<open>The regular expression class \<^verbatim>\<open>\w\<close>: ASCII letters, digits and the underscore.\<close>

definition is_word_char :: "char \<Rightarrow> bool" where
  "is_word_char c =
     (c \<in> set ''abcdefghijklmnopqrstuvwxyzABCDEFGHIJKLMNOPQRSTUVWXYZ0123456789_'')"

text \<open>\<^verbatim>\<open>.replace(/[^\w\s]/g, ' ')\<close>\<close>

definition replace_nonword :: "string \<Rightarrow> string" where
  "replace_nonword s = map (\<lambda>c. if is_word_char c \<or> is_space c then c else CHR '' '') s"

text \<open>
  \<^verbatim>\<open>.split(/\s+/)\<close>: the pieces between the runs of white space; a run at either end
  leaves an empty piece there. \<open>inws\<close> says that the scan is inside a run, \<open>cur\<close> is
  the piece under construction, reversed.
\<close>

fun split_ws :: "bool \<Rightarrow> string \<Rightarrow> string \<Rightarrow> string list" where
  "split_ws inws cur [] = [rev cur]"
| "split_ws inws cur (c # cs) =
     (if is_space c
      then (if inws then split_ws True cur cs else rev cur # split_ws True [] cs)
      else split_ws False (c # cur) cs)"

text \<open>The words \<^verbatim>\<open>generateEmbedding\<close> counts.\<close>

definition tokens :: "string \<Rightarrow> string list" where
  "tokens text =
     filter (\<lambda>w. length w > 2) (split_ws False [] (replace_nonword (toLowerCase text)))"

text \<open>
  \<^verbatim>\<open>simpleHash\<close>: \<^verbatim>\<open>hash = ((hash << 5) - hash) + char; hash = hash & hash\<close> keeps
  the hash a signed 32-bit integer, so the loop is arithmetic on 32-bit words; the result
  is the absolute value of the signed reading.
\<close>

definition simpleHash :: "string \<Rightarrow> nat" where
  "simpleHash str =
     nat \<bar>sint (foldl (\<lambda>hash c. (push_bit 5 hash - hash) + of_char c) (0 :: 32 word) str)\<bar>"

text \<open>\<^verbatim>\<open>embedding[i] += 1\<close>\<close>

definition bump :: "nat \<Rightarrow> real list \<Rightarrow> real list" where
  "bump i e = e[i := e ! i + 1]"

text \<open>The \<^verbatim>\<open>forEach\<close> loop over the words, from \<^verbatim>\<open>new Array(128).fill(0)\<close>.\<close>

definition bucket_counts :: "string list \<Rightarrow> real list" where
  "bucket_counts words =
     foldl (\<lambda>embedding word. bump (simpleHash word mod 128) embedding) (replicate 128 0) words"

definition generateEmbedding :: "string \<Rightarrow> real list" where
  "generateEmbedding text =
     (let embedding = bucket_counts (tokens text);
          magnitude = sqrt (foldl (\<lambda>sum val. sum + val * val) 0 embedding)
      in map (\<lambda>val. if magnitude > 0 then val / magnitude else 0) embedding)"

subsection \<open>Similarity search\<close>

definition cosineSimilarity :: "real list \<Rightarrow> real list \<Rightarrow> real" where
  "cosineSimilarity vec1 vec2 =
     (if length vec1 \<noteq> length vec2 then 0
      else
        case foldl (\<lambda>(dotProduct, magnitude1, magnitude2) i.
                      (dotProduct + vec1 ! i * vec2 ! i,
                       magnitude1 + vec1 ! i * vec1 ! i,
                       magnitude2 + vec2 ! i * vec2 ! i))
                   (0, 0, 0) [0..<length vec1] of
          (dotProduct, magnitude1, magnitude2) \<Rightarrow>
            if sqrt magnitude1 = 0 \<or> sqrt magnitude2 = 0 then 0
            else dotProduct / (sqrt magnitude1 * sqrt magnitude2))"

text \<open>
  A stored record. \<^verbatim>\<open>id\<close> is the decimal text of \<^verbatim>\<open>Date.now()\<close> and
  \<^verbatim>\<open>timestamp\<close> the ISO text of the same clock; the model keeps the clock reading (in
  milliseconds) for both.
\<close>

record strategy_entry =
  entry_id :: nat
  strategy :: string
  embedding :: "real list"
  metadata :: jsval
  timestamp :: nat

text \<open>Each record with its similarity to the query: the \<^verbatim>\<open>map\<close> of \<^verbatim>\<open>searchSimilar\<close>.\<close>

definition scored :: "real list \<Rightarrow> strategy_entry list \<Rightarrow> (strategy_entry \<times> real) list" where
  "scored queryEmbedding entries =
     map (\<lambda>entry. (entry, cosineSimilarity queryEmbedding (embedding entry))) entries"

text \<open>
  \<^verbatim>\<open>searchSimilar(query, topK)\<close> for a count \<open>topK\<close>. \<^verbatim>\<open>Array.prototype.sort\<close>
  is stable; with the comparator \<^verbatim>\<open>b.similarity - a.similarity\<close> it is the stable
  sort by decreasing similarity, here the stable insertion sort on the key
  \<open>- similarity\<close>.
\<close>

definition searchSimilar ::
  "strategy_entry list \<Rightarrow> string \<Rightarrow> nat \<Rightarrow> (strategy_entry \<times> real) list" where
  "searchSimilar entries query topK =
     (let queryEmbedding = generateEmbedding query
      in take topK
           (sort_key (\<lambda>entry. - snd entry)
              (filter (\<lambda>entry. snd entry > 0.1) (scored queryEmbedding entries))))"

subsection \<open>Adding and saving\<close>





subsection \<open>The tokens in the words of the specification\<close>

text \<open>
  Not part of the program: the specification describes the tokens of a fingerprint as
  lowercase alphanumeric runs of length above 2. \<open>spec_alnum_tokens\<close> follows these
  words (letters and digits only), to be compared with \<open>tokens\<close>.
\<close>

definition is_alnum_char :: "char \<Rightarrow> bool" where
  "is_alnum_char c =
     (c \<in> set ''abcdefghijklmnopqrstuvwxyzABCDEFGHIJKLMNOPQRSTUVWXYZ0123456789'')"

definition spec_alnum_tokens :: "string \<Rightarrow> string list" where
  "spec_alnum_tokens text =
     filter (\<lambda>w. length w > 2)
       (split_ws False [] (map (\<lambda>c. if is_alnum_char c then c else CHR '' '') (toLowerCase text)))"

text \<open>The Euclidean length of a vector.\<close>

definition l2norm :: "real list \<Rightarrow> real" where
  "l2norm v = sqrt (sum_list (map (\<lambda>x. x * x) v))"

subsection \<open>Example data\<close>

text \<open>The record that \<^verbatim>\<open>addStrategy('abc', null)\<close> stores at clock reading \<open>n\<close>.\<close>

definition entry_abc :: "nat \<Rightarrow> strategy_entry" where
  "entry_abc n =
     \<lparr>entry_id = n, strategy = ''abc'', embedding = generateEmbedding ''abc'',
      metadata = JNull, timestamp = n\<rparr>"


section \<open>The orchestrator (ragAgent.js)\<close>

text \<open>
  The built-in functions and the environment one workflow run sees: \<^verbatim>\<open>JSON.parse\<close>
  (which raises on text that is not JSON), \<^verbatim>\<open>JSON.stringify\<close>, the text of a
  number, the clock and the state of the disk. Logging is taken not to fail.
\<close>

record runtime =
  json_parse :: "string \<Rightarrow> js_error + jsval"
  json_stringify :: "jsval \<Rightarrow> string"
  number_text :: "jnum \<Rightarrow> string"
  date_now :: nat
  disk_ok :: bool

text \<open>
  The external services answer each call of a run with a value or fail (a network
  error, an HTTP error, a missing key). One field per call the workflow makes.
\<close>

record collaborators =
  getTradingStrategies :: "js_error + jsval"
  getFinancialNews :: "js_error + jsval"
  getStockData :: "js_error + jsval"
  getMarketSentiment :: "js_error + jsval"
  performCalculations :: "js_error + jsval"
  analyzeScenario_synthesis :: "js_error + jsval"
  analyzeScenario_decision :: "js_error + jsval"










text \<open>
  \<^verbatim>\<open>makeDecision\<close>: the body of its \<^verbatim>\<open>try\<close> (the call, the parse of a textual
  reply, the normalisation), then the method with its \<^verbatim>\<open>catch\<close>. The arguments
  of a method that only go into the prompt of a service do not influence the model: the
  answer of the service is given with the collaborators.
\<close>

definition makeDecision_try :: "runtime \<Rightarrow> collaborators \<Rightarrow> js_error + jsval" where
  "makeDecision_try rt col =
     (case analyzeScenario_decision col of
        Inl e \<Rightarrow> Inl e
      | Inr reply \<Rightarrow>
     (case (case reply of
              JStr s \<Rightarrow>
                (case json_parse rt s of
                   Inl parseError \<Rightarrow>
                     Inl (JsError ''Invalid decision format received from DeepSeek'')
                 | Inr parsed \<Rightarrow> Inr parsed)
            | _ \<Rightarrow> Inr reply) of
        Inl e \<Rightarrow> Inl e
      | Inr parsedDecision \<Rightarrow> normalizeDecision (number_text rt) parsedDecision))"

definition hold_fallback :: jsval where
  "hold_fallback =
     JObj [(''action'', JStr ''HOLD''),
           (''reasoning'', JStr ''Error in decision making, defaulting to HOLD''),
           (''confidence'', JNum (Fin 0))]"

definition makeDecision :: "runtime \<Rightarrow> collaborators \<Rightarrow> jsval \<Rightarrow> jsval \<Rightarrow> js_error + jsval" where
  "makeDecision rt col synthesizedStrategy pf =
     (case makeDecision_try rt col of
        Inr normalizedDecision \<Rightarrow> Inr normalizedDecision
      | Inl error \<Rightarrow> Inr hold_fallback)"




subsection \<open>Example data\<close>



section \<open>The trading engine (tradingEngine.js)\<close>

text \<open>
  The fields of the engine, and next to them what the runtime holds for it: the interval
  timers that are armed (by handle), the next fresh handle, the trading cycles whose
  asynchronous work is outstanding (by cycle number) and the log (level and message).
  JavaScript runs one piece of code at a time; a piece ends at an \<^verbatim>\<open>await\<close> or at
  its return. Each function below is one such piece, or a call awaited to its end.
\<close>

record engine =
  isRunning :: bool
  tradingInterval :: "nat option"
  cycleCount :: nat
  lastDecision :: jsval
  current_portfolio :: jsval
  timers :: "nat list"
  next_handle :: nat
  in_flight :: "nat list"
  log_lines :: "(string \<times> string) list"





definition cycle_settled :: "nat \<Rightarrow> jsval \<Rightarrow> jsval \<Rightarrow> engine \<Rightarrow> engine" where
  "cycle_settled n pf decision e =
     e\<lparr>in_flight := remove1 n (in_flight e), current_portfolio := pf, lastDecision := decision\<rparr>"




chapter \<open>Properties\<close>

section \<open>Properties of the decision normaliser\<close>

lemmas js_eval =
  trim_def toUpperCase_def upper_char_def is_space_def is_digit_def digits_val_def scale10_def
  exponent_part_def parseFloat_str_def parseFloat_val_def or_else_def nullish_else_def nullish_def
  default_to_def set_prop_def candidate_of_def action_of_def reasoning_of_def confidence_of_def
  symbol_of_def quantity_of_def Let_def

lemma get_set_prop: "get (JObj (set_prop k v kvs)) k' = (if k' = k then v else get (JObj kvs) k')"
  by (simp add: set_prop_def update_conv')



lemma action_of_no_object: "\<forall>kvs. c \<noteq> JObj kvs \<Longrightarrow> action_of nts c = []"
  by (cases c) (simp_all add: action_of_def or_else_def trim_def toUpperCase_def)

lemma normalized_fields:
  assumes "normalizeDecision nts d = Inr r"
  shows "get r ''action'' = JStr (action_of nts (candidate_of d))"
    and "action_of nts (candidate_of d) \<in> {''BUY'', ''SELL'', ''HOLD''}"
    and "get r ''confidence'' = JNum (Fin (confidence_of nts (candidate_of d)))"
    and "get r ''reasoning'' = reasoning_of (candidate_of d)"
    and "action_of nts (candidate_of d) \<noteq> ''HOLD'' \<Longrightarrow>
           get r ''symbol'' = JStr (symbol_of nts (candidate_of d))
           \<and> symbol_of nts (candidate_of d) \<noteq> []
           \<and> get r ''quantity'' = quantity_of (candidate_of d)
           \<and> positive_finite (quantity_of (candidate_of d))"
    and "action_of nts (candidate_of d) = ''HOLD'' \<Longrightarrow>
           get r ''quantity'' = JNum (Fin 0)
           \<and> get r ''symbol'' = nullish_else (get (candidate_of d) ''symbol'') JNull"
    and "k \<notin> {''action'', ''reasoning'', ''confidence'', ''symbol'', ''quantity''} \<Longrightarrow>
           get r k = get (JObj (own_props (candidate_of d))) k"
  using assms
  by (auto simp: normalizeDecision_def Let_def get_set_prop simp del: get.simps split: if_splits)

lemma normalized_candidate_object:
  assumes "normalizeDecision nts d = Inr r"
  shows "\<exists>kvs. candidate_of d = JObj kvs"
proof (rule ccontr)
  assume "\<not> (\<exists>kvs. candidate_of d = JObj kvs)"
  then have "action_of nts (candidate_of d) = []" by (simp add: action_of_no_object)
  with normalized_fields(2) [OF assms] show False by simp
qed





lemma normalize_nested_hold_example:
  "normalizeDecision nts
     (JObj [(''decision'', JObj [(''action'', JStr '' hold ''), (''confidence'', JStr ''abc''),
                                 (''quantity'', JNum (Fin 7))])])
   = Inr (JObj [(''action'', JStr ''HOLD''), (''confidence'', JNum (Fin 0)),
                (''quantity'', JNum (Fin 0)), (''reasoning'', JStr []), (''symbol'', JNull)])"
  by (simp add: normalizeDecision_def js_eval)



text \<open>
  C10. \<^verbatim>\<open>normalizeDecision\<close> starts its result from a spread of the candidate, so
  every property of the candidate other than action, reasoning, confidence, symbol and
  quantity is in the result unchanged. \<^verbatim>\<open>executeDecision\<close> builds its order from the
  decision's symbol, action and quantity and from two such extra properties: the order
  type is the decision's \<^verbatim>\<open>order_type\<close> (MARKET when there is none) and the order
  has a price exactly when the decision's \<^verbatim>\<open>price\<close> is truthy, then its parsed
  value. A price and an order type on the proposal reach the order.
\<close>

theorem normalizeDecision_passes_extra_fields:
  "(normalizeDecision nts d = Inr r
      \<and> k \<notin> {''action'', ''reasoning'', ''confidence'', ''symbol'', ''quantity''} \<longrightarrow>
      get r k = get (candidate_of d) k)
   \<and> (executeDecision_order nts dec = Inr ord \<longrightarrow>
        o_order_type ord = default_to (get dec ''order_type'') (JStr ''MARKET'')
        \<and> o_price ord = (if truthy (get dec ''price'')
                         then Some (parseFloat_val nts (get dec ''price'')) else None)
        \<and> o_pair ord = get dec ''symbol'' \<and> o_side ord = get dec ''action''
        \<and> o_quantity ord = parseFloat_val nts (get dec ''quantity''))
   \<and> (\<exists>r0. normalizeDecision nts
               (JObj [(''action'', JStr ''buy''), (''symbol'', JStr ''BTC/USD''),
                      (''quantity'', JNum (Fin 1)), (''price'', JStr ''50000''),
                      (''order_type'', JStr ''LIMIT''), (''note'', JBool True)]) = Inr r0
            \<and> get r0 ''price'' = JStr ''50000'' \<and> get r0 ''order_type'' = JStr ''LIMIT''
            \<and> get r0 ''note'' = JBool True
            \<and> executeDecision_order nts r0
                = Inr \<lparr>o_pair = JStr ''BTC/USD'', o_side = JStr ''BUY'',
                       o_order_type = JStr ''LIMIT'', o_quantity = Fin 1,
                       o_price = Some (Fin 50000)\<rparr>)"
proof -
  have spread: "normalizeDecision nts d = Inr r
      \<and> k \<notin> {''action'', ''reasoning'', ''confidence'', ''symbol'', ''quantity''} \<longrightarrow>
      get r k = get (candidate_of d) k"
  proof
    assume a: "normalizeDecision nts d = Inr r
      \<and> k \<notin> {''action'', ''reasoning'', ''confidence'', ''symbol'', ''quantity''}"
    note n = conjunct1 [OF a] and kn = conjunct2 [OF a]
    obtain kvs where c: "candidate_of d = JObj kvs"
      using normalized_candidate_object [OF n] ..
    have "get r k = get (JObj (own_props (candidate_of d))) k"
      by (rule normalized_fields(7) [OF n kn])
    then show "get r k = get (candidate_of d) k" by (simp add: c)
  qed
  have order: "executeDecision_order nts dec = Inr ord \<longrightarrow>
        o_order_type ord = default_to (get dec ''order_type'') (JStr ''MARKET'')
        \<and> o_price ord = (if truthy (get dec ''price'')
                         then Some (parseFloat_val nts (get dec ''price'')) else None)
        \<and> o_pair ord = get dec ''symbol'' \<and> o_side ord = get dec ''action''
        \<and> o_quantity ord = parseFloat_val nts (get dec ''quantity'')"
    by (auto simp: executeDecision_order_def Let_def split: if_splits)
  have example: "\<exists>r0. normalizeDecision nts
               (JObj [(''action'', JStr ''buy''), (''symbol'', JStr ''BTC/USD''),
                      (''quantity'', JNum (Fin 1)), (''price'', JStr ''50000''),
                      (''order_type'', JStr ''LIMIT''), (''note'', JBool True)]) = Inr r0
            \<and> get r0 ''price'' = JStr ''50000'' \<and> get r0 ''order_type'' = JStr ''LIMIT''
            \<and> get r0 ''note'' = JBool True
            \<and> executeDecision_order nts r0
                = Inr \<lparr>o_pair = JStr ''BTC/USD'', o_side = JStr ''BUY'',
                       o_order_type = JStr ''LIMIT'', o_quantity = Fin 1,
                       o_price = Some (Fin 50000)\<rparr>"
    by (simp add: normalizeDecision_def executeDecision_order_def js_eval)
  show ?thesis by (intro conjI) (fact spread order example)+
qed

text \<open>
  The theorem at work: a hold proposal nested under \<^verbatim>\<open>decision\<close> keeps its
  \<^verbatim>\<open>risk\<close> property, and a decision without an order type gives a MARKET order
  without a price.
\<close>

theorem normalizeDecision_passes_extra_fields_witness:
  "normalizeDecision (\<lambda>n. [])
     (JObj [(''decision'', JObj [(''action'', JStr ''hold''), (''risk'', JStr ''low'')])])
   = Inr (JObj [(''action'', JStr ''HOLD''), (''risk'', JStr ''low''), (''reasoning'', JStr []),
                (''confidence'', JNum (Fin 0)), (''symbol'', JNull), (''quantity'', JNum (Fin 0))])
   \<and> ''risk'' \<notin> {''action'', ''reasoning'', ''confidence'', ''symbol'', ''quantity''}
   \<and> get (JObj [(''action'', JStr ''HOLD''), (''risk'', JStr ''low''), (''reasoning'', JStr []),
                (''confidence'', JNum (Fin 0)), (''symbol'', JNull), (''quantity'', JNum (Fin 0))])
          ''risk''
      = get (candidate_of (JObj [(''decision'', JObj [(''action'', JStr ''hold''),
                                                      (''risk'', JStr ''low'')])])) ''risk''
   \<and> executeDecision_order (\<lambda>n. [])
        (JObj [(''action'', JStr ''SELL''), (''symbol'', JStr ''ETH/USD''),
               (''quantity'', JNum (Fin 2))])
      = Inr \<lparr>o_pair = JStr ''ETH/USD'', o_side = JStr ''SELL'', o_order_type = JStr ''MARKET'',
             o_quantity = Fin 2, o_price = None\<rparr>
   \<and> o_order_type \<lparr>o_pair = JStr ''ETH/USD'', o_side = JStr ''SELL'',
                    o_order_type = JStr ''MARKET'', o_quantity = Fin 2, o_price = None\<rparr>
      = default_to (get (JObj [(''action'', JStr ''SELL''), (''symbol'', JStr ''ETH/USD''),
                               (''quantity'', JNum (Fin 2))]) ''order_type'') (JStr ''MARKET'')"
  using
    normalizeDecision_passes_extra_fields [of "\<lambda>n. []"
      "JObj [(''decision'', JObj [(''action'', JStr ''hold''), (''risk'', JStr ''low'')])]"
      "JObj [(''action'', JStr ''HOLD''), (''risk'', JStr ''low''), (''reasoning'', JStr []),
             (''confidence'', JNum (Fin 0)), (''symbol'', JNull), (''quantity'', JNum (Fin 0))]"
      "''risk''"
      "JObj [(''action'', JStr ''SELL''), (''symbol'', JStr ''ETH/USD''),
             (''quantity'', JNum (Fin 2))]"
      "\<lparr>o_pair = JStr ''ETH/USD'', o_side = JStr ''SELL'', o_order_type = JStr ''MARKET'',
        o_quantity = Fin 2, o_price = None\<rparr>"]
  by (simp add: normalizeDecision_def executeDecision_order_def js_eval)

section \<open>Properties of the risk manager\<close>
















section \<open>Properties of the strategy store\<close>

lemmas token_eval =
  tokens_def toLowerCase_def lower_char_def replace_nonword_def is_word_char_def is_space_def

lemma foldl_sq:
  "foldl (\<lambda>sum val. sum + val * val) a xs = a + sum_list (map (\<lambda>x. x * x) (xs :: real list))"
  by (induction xs arbitrary: a) simp_all

lemma length_bump [simp]: "length (bump i e) = length e"
  by (simp add: bump_def)

lemma length_foldl_bump: "length (foldl (\<lambda>e w. bump (h w) e) e ws) = length e"
  by (induction ws arbitrary: e) simp_all

lemma nth_foldl_bump:
  "i < length e \<Longrightarrow>
   foldl (\<lambda>e w. bump (h w) e) e ws ! i = e ! i + real (length (filter (\<lambda>w. h w = i) ws))"
proof (induction ws arbitrary: e)
  case Nil
  then show ?case by simp
next
  case (Cons w ws)
  have "foldl (\<lambda>e w. bump (h w) e) (bump (h w) e) ws ! i
        = bump (h w) e ! i + real (length (filter (\<lambda>w. h w = i) ws))"
    using Cons.prems by (intro Cons.IH) simp
  then show ?case using Cons.prems by (auto simp: bump_def)
qed

lemma length_bucket_counts: "length (bucket_counts ws) = 128"
  by (simp add: bucket_counts_def length_foldl_bump)

lemma nth_bucket_counts:
  "i < 128 \<Longrightarrow>
   bucket_counts ws ! i = real (length (filter (\<lambda>w. simpleHash w mod 128 = i) ws))"
  by (simp add: bucket_counts_def nth_foldl_bump)

lemma bucket_counts_mset:
  assumes "mset ws = mset ws'"
  shows "bucket_counts ws = bucket_counts ws'"
proof (rule nth_equalityI)
  show "length (bucket_counts ws) = length (bucket_counts ws')"
    by (simp add: length_bucket_counts)
next
  fix i assume "i < length (bucket_counts ws)"
  then have i: "i < 128" by (simp add: length_bucket_counts)
  have "length (filter (\<lambda>w. simpleHash w mod 128 = i) ws)
        = size (filter_mset (\<lambda>w. simpleHash w mod 128 = i) (mset ws))"
    by (metis mset_filter size_mset)
  also have "\<dots> = length (filter (\<lambda>w. simpleHash w mod 128 = i) ws')"
    unfolding assms by (metis mset_filter size_mset)
  finally show "bucket_counts ws ! i = bucket_counts ws' ! i"
    using i by (simp add: nth_bucket_counts)
qed

lemma bucket_counts_Nil: "bucket_counts [] = replicate 128 0"
  by (simp add: bucket_counts_def)

lemma sumsq_nonneg: "0 \<le> sum_list (map (\<lambda>x. x * x) (v :: real list))"
  by (induction v) simp_all

lemma sumsq_zero_iff:
  "sum_list (map (\<lambda>x. x * x) (v :: real list)) = 0 \<longleftrightarrow> (\<forall>x \<in> set v. x = 0)"
proof (induction v)
  case Nil
  then show ?case by simp
next
  case (Cons a v)
  have "0 \<le> a * a" by simp
  then have "a * a + sum_list (map (\<lambda>x. x * x) v) = 0
             \<longleftrightarrow> a * a = 0 \<and> sum_list (map (\<lambda>x. x * x) v) = 0"
    using sumsq_nonneg [of v] by linarith
  then show ?case using Cons.IH by simp
qed

lemma bucket_counts_pos:
  assumes "ws \<noteq> []"
  shows "0 < sum_list (map (\<lambda>x. x * x) (bucket_counts ws))"
proof -
  obtain w ws' where ws: "ws = w # ws'" using assms by (cases ws) auto
  let ?i = "simpleHash w mod 128"
  have "bucket_counts ws ! ?i = real (length (filter (\<lambda>u. simpleHash u mod 128 = ?i) ws))"
    by (simp add: nth_bucket_counts)
  then have "bucket_counts ws ! ?i > 0" by (simp add: ws)
  moreover have "bucket_counts ws ! ?i \<in> set (bucket_counts ws)"
    by (simp add: length_bucket_counts)
  ultimately have "\<not> (\<forall>x \<in> set (bucket_counts ws). x = 0)" by force
  then have "sum_list (map (\<lambda>x. x * x) (bucket_counts ws)) \<noteq> 0"
    by (simp add: sumsq_zero_iff)
  then show ?thesis using sumsq_nonneg [of "bucket_counts ws"] by linarith
qed

lemma sumsq_scale:
  "sum_list (map (\<lambda>x. x * x) (map (\<lambda>val. val / m) v)) = sum_list (map (\<lambda>x. x * x) v) / (m * m)"
  for m :: real
  by (induction v) (simp_all add: add_divide_distrib)

lemma length_generateEmbedding: "length (generateEmbedding t) = 128"
  by (simp add: generateEmbedding_def Let_def length_bucket_counts)

lemma generateEmbedding_no_tokens:
  "tokens t = [] \<Longrightarrow> generateEmbedding t = replicate 128 0"
  by (simp add: generateEmbedding_def bucket_counts_Nil foldl_sq Let_def sum_list_replicate)

lemma generateEmbedding_scaled:
  assumes "tokens t \<noteq> []"
  shows "generateEmbedding t
         = map (\<lambda>val. val / sqrt (sum_list (map (\<lambda>x. x * x) (bucket_counts (tokens t)))))
             (bucket_counts (tokens t))"
proof -
  have "0 < sqrt (sum_list (map (\<lambda>x. x * x) (bucket_counts (tokens t))))"
    using bucket_counts_pos [OF assms] by simp
  then show ?thesis by (simp add: generateEmbedding_def Let_def foldl_sq)
qed

lemma l2norm_generateEmbedding:
  "l2norm (generateEmbedding t) = (if tokens t = [] then 0 else 1)"
proof (cases "tokens t = []")
  case True
  then show ?thesis by (simp add: generateEmbedding_no_tokens l2norm_def sum_list_replicate)
next
  case False
  let ?S = "sum_list (map (\<lambda>x. x * x) (bucket_counts (tokens t)))"
  have S: "0 < ?S" using False by (rule bucket_counts_pos)
  have "sum_list (map (\<lambda>x. x * x) (generateEmbedding t)) = ?S / (sqrt ?S * sqrt ?S)"
    unfolding generateEmbedding_scaled [OF False] by (rule sumsq_scale)
  also have "\<dots> = 1" using S by simp
  finally show ?thesis using False by (simp add: l2norm_def)
qed

lemma generateEmbedding_mset:
  "mset (tokens t1) = mset (tokens t2) \<Longrightarrow> generateEmbedding t1 = generateEmbedding t2"
  by (simp add: generateEmbedding_def bucket_counts_mset [of "tokens t1" "tokens t2"])

text \<open>The characters of a token.\<close>

lemma split_ws_chars:
  "w \<in> set (split_ws inws cur cs) \<Longrightarrow> c \<in> set w \<Longrightarrow>
   c \<in> set cur \<or> (c \<in> set cs \<and> \<not> is_space c)"
proof (induction cs arbitrary: inws cur)
  case Nil
  then show ?case by simp
next
  case (Cons a cs)
  show ?case
  proof (cases "is_space a")
    case True
    then show ?thesis using Cons.IH [of True cur] Cons.IH [of True "[]"] Cons.prems
      by (auto split: if_splits)
  next
    case False
    then show ?thesis using Cons.IH [of False "a # cur"] Cons.prems by auto
  qed
qed

lemma lower_char_not_upper: "lower_char c \<notin> set ''ABCDEFGHIJKLMNOPQRSTUVWXYZ''"
  by (simp add: lower_char_def)

lemma token_chars:
  assumes "w \<in> set (tokens t)" and "c \<in> set w"
  shows "c \<in> set ''abcdefghijklmnopqrstuvwxyz0123456789_''"
proof -
  from assms have "w \<in> set (split_ws False [] (replace_nonword (toLowerCase t)))"
    by (simp add: tokens_def)
  from split_ws_chars [OF this assms(2)]
  have c: "c \<in> set (replace_nonword (toLowerCase t))" and ns: "\<not> is_space c" by simp_all
  from c obtain a where a: "a \<in> set t"
    and ca: "c = (if is_word_char (lower_char a) \<or> is_space (lower_char a) then lower_char a else CHR '' '')"
    by (auto simp: replace_nonword_def toLowerCase_def)
  have sp: "is_space (CHR '' '')" by (simp add: is_space_def)
  from ca ns sp have cw: "is_word_char c" and cl: "c = lower_char a"
    by (auto split: if_splits)
  have "c \<notin> set ''ABCDEFGHIJKLMNOPQRSTUVWXYZ''"
    unfolding cl by (rule lower_char_not_upper)
  with cw show ?thesis by (simp add: is_word_char_def)
qed

lemma token_length: "w \<in> set (tokens t) \<Longrightarrow> 2 < length w"
  by (simp add: tokens_def)

lemma tokens_underscore: "tokens ''a_b'' = [''a_b'']"
  by (simp add: token_eval)

lemma tokens_abc: "tokens ''abc'' = [''abc'']"
  by (simp add: token_eval)

lemma tokens_buy_low: "tokens ''buy low'' = [''buy'', ''low'']"
  by (simp add: token_eval)

lemma tokens_low_buy: "tokens ''low buy'' = [''low'', ''buy'']"
  by (simp add: token_eval)

lemma tokens_a_b: "tokens ''a b'' = []"
  by (simp add: token_eval)

text \<open>
  C5 (as amended). For every text the fingerprint \<^verbatim>\<open>generateEmbedding\<close> is a function
  of the text alone (two calls on the same text give the same vector), has length 128
  and does not depend on the order of the tokens: texts with the same bag of tokens have
  the same fingerprint. A token is a run of lowercase letters, digits and underscores
  (the class \<^verbatim>\<open>\w\<close> after lower-casing) longer than 2; bucket \<open>i\<close> counts the
  tokens whose hash is \<open>i\<close> modulo 128, and the counts are divided by their Euclidean
  length. The Euclidean length of the fingerprint is 0 when the text has no token and 1
  otherwise; without a token the fingerprint is the all-zero vector.
\<close>

theorem generateEmbedding_spec:
  "length (generateEmbedding t) = 128
   \<and> (mset (tokens t) = mset (tokens t') \<longrightarrow> generateEmbedding t = generateEmbedding t')
   \<and> l2norm (generateEmbedding t) = (if tokens t = [] then 0 else 1)
   \<and> (tokens t = [] \<longrightarrow> generateEmbedding t = replicate 128 0)
   \<and> (w \<in> set (tokens t) \<longrightarrow> 2 < length w)
   \<and> (w \<in> set (tokens t) \<and> c \<in> set w \<longrightarrow> c \<in> set ''abcdefghijklmnopqrstuvwxyz0123456789_'')
   \<and> (i < 128 \<longrightarrow>
        bucket_counts (tokens t) ! i
          = real (length (filter (\<lambda>w. simpleHash w mod 128 = i) (tokens t))))
   \<and> (tokens t \<noteq> [] \<longrightarrow>
        generateEmbedding t
          = map (\<lambda>val. val / l2norm (bucket_counts (tokens t))) (bucket_counts (tokens t)))
   \<and> tokens ''a_b'' = [''a_b'']"
proof -
  have order: "mset (tokens t) = mset (tokens t') \<longrightarrow> generateEmbedding t = generateEmbedding t'"
  proof
    assume "mset (tokens t) = mset (tokens t')"
    then show "generateEmbedding t = generateEmbedding t'" by (rule generateEmbedding_mset)
  qed
  have zero: "tokens t = [] \<longrightarrow> generateEmbedding t = replicate 128 0"
    by (simp add: generateEmbedding_no_tokens)
  have len: "w \<in> set (tokens t) \<longrightarrow> 2 < length w"
    by (simp add: token_length)
  have chars: "w \<in> set (tokens t) \<and> c \<in> set w \<longrightarrow>
               c \<in> set ''abcdefghijklmnopqrstuvwxyz0123456789_''"
  proof
    assume a: "w \<in> set (tokens t) \<and> c \<in> set w"
    show "c \<in> set ''abcdefghijklmnopqrstuvwxyz0123456789_''"
      by (rule token_chars [OF conjunct1 [OF a] conjunct2 [OF a]])
  qed
  have buckets: "i < 128 \<longrightarrow>
        bucket_counts (tokens t) ! i
          = real (length (filter (\<lambda>w. simpleHash w mod 128 = i) (tokens t)))"
    by (simp add: nth_bucket_counts)
  have scaled: "tokens t \<noteq> [] \<longrightarrow>
        generateEmbedding t
          = map (\<lambda>val. val / l2norm (bucket_counts (tokens t))) (bucket_counts (tokens t))"
    using generateEmbedding_scaled [of t] by (simp add: l2norm_def)
  show ?thesis
    by (intro conjI)
      (fact length_generateEmbedding order l2norm_generateEmbedding zero len chars buckets scaled
         tokens_underscore)+
qed

text \<open>
  The theorem at work: \<^verbatim>\<open>buy low\<close> and \<^verbatim>\<open>low buy\<close> have the same tokens in a
  different order and the same fingerprint, of Euclidean length 1; the text \<^verbatim>\<open>a b\<close>
  has no token and the all-zero fingerprint.
\<close>

theorem generateEmbedding_spec_witness:
  "mset (tokens ''buy low'') = mset (tokens ''low buy'')
   \<and> tokens ''buy low'' \<noteq> tokens ''low buy''
   \<and> generateEmbedding ''buy low'' = generateEmbedding ''low buy''
   \<and> l2norm (generateEmbedding ''buy low'') = 1
   \<and> tokens ''a b'' = []
   \<and> generateEmbedding ''a b'' = replicate 128 0
   \<and> ''buy'' \<in> set (tokens ''buy low'') \<and> 2 < length ''buy''"
proof -
  note a = generateEmbedding_spec [of "''buy low''" "''low buy''" "''buy''" "CHR ''b''" 0]
  note b = generateEmbedding_spec [of "''a b''" "''a b''" "''buy''" "CHR ''b''" 0]
  have m: "mset (tokens ''buy low'') = mset (tokens ''low buy'')"
    by (simp add: tokens_buy_low tokens_low_buy)
  have d: "tokens ''buy low'' \<noteq> tokens ''low buy''"
    by (simp add: tokens_buy_low tokens_low_buy)
  have e: "generateEmbedding ''buy low'' = generateEmbedding ''low buy''"
    by (rule mp [OF a [THEN conjunct2, THEN conjunct1] m])
  have "tokens ''buy low'' \<noteq> []" by (simp add: tokens_buy_low)
  then have n: "l2norm (generateEmbedding ''buy low'') = 1"
    using a [THEN conjunct2, THEN conjunct2, THEN conjunct1] by (simp only: if_False)
  have z: "generateEmbedding ''a b'' = replicate 128 0"
    by (rule mp [OF b [THEN conjunct2, THEN conjunct2, THEN conjunct2, THEN conjunct1] tokens_a_b])
  have i: "''buy'' \<in> set (tokens ''buy low'')" by (simp add: tokens_buy_low)
  have l: "2 < length ''buy''"
    by (rule mp [OF a [THEN conjunct2, THEN conjunct2, THEN conjunct2, THEN conjunct2,
                      THEN conjunct1] i])
  show ?thesis by (intro conjI) (fact m d e n tokens_a_b z i l)+
qed

text \<open>
  Where the claim as first stated fails: the text \<^verbatim>\<open>a_b\<close> has no alphanumeric run
  longer than 2, so by the claim it has no countable token and the all-zero
  fingerprint; but the underscore is a word character, \<^verbatim>\<open>a_b\<close> is one token, and
  the fingerprint is not the zero vector.
\<close>

theorem generateEmbedding_counterexample:
  "spec_alnum_tokens ''a_b'' = []
   \<and> tokens ''a_b'' = [''a_b'']
   \<and> l2norm (generateEmbedding ''a_b'') = 1
   \<and> generateEmbedding ''a_b'' \<noteq> replicate 128 0"
proof -
  have s: "spec_alnum_tokens ''a_b'' = []"
    by (simp add: spec_alnum_tokens_def toLowerCase_def lower_char_def is_alnum_char_def
        is_space_def)
  have n: "l2norm (generateEmbedding ''a_b'') = 1"
    by (simp add: l2norm_generateEmbedding tokens_underscore)
  have z: "l2norm (replicate 128 0) = 0"
    by (simp add: l2norm_def sum_list_replicate)
  have nz: "generateEmbedding ''a_b'' \<noteq> replicate 128 0"
  proof
    assume "generateEmbedding ''a_b'' = replicate 128 0"
    then have "l2norm (generateEmbedding ''a_b'') = l2norm (replicate 128 0)"
      by (rule arg_cong)
    then show False by (simp only: n z)
  qed
  show ?thesis by (intro conjI) (fact s tokens_underscore n nz)+
qed

subsection \<open>Similarity search\<close>

lemma cos_loop:
  "foldl (\<lambda>(d, a, b) i. (d + v1 ! i * v2 ! i, a + v1 ! i * v1 ! i, b + v2 ! i * v2 ! i))
         (d0, a0, b0) [0..<n]
   = (d0 + (\<Sum>i<n. v1 ! i * v2 ! i), a0 + (\<Sum>i<n. v1 ! i * v1 ! i), b0 + (\<Sum>i<n. v2 ! i * v2 ! i))"
  for d0 a0 b0 :: real
  by (induction n) (simp_all add: add.assoc)

lemma sumsq_nth:
  "sum_list (map (\<lambda>x. x * x) v) = (\<Sum>i<length v. v ! i * v ! i)" for v :: "real list"
proof -
  have "map (\<lambda>x. x * x) v = map (\<lambda>i. v ! i * v ! i) [0..<length v]"
    by (rule nth_equalityI) simp_all
  then show ?thesis by (simp add: sum_list_sum_nth atLeast0LessThan)
qed

lemma cosineSimilarity_eq:
  assumes "length v1 = length v2"
  shows "cosineSimilarity v1 v2 =
     (if l2norm v1 = 0 \<or> l2norm v2 = 0 then 0
      else (\<Sum>i<length v1. v1 ! i * v2 ! i) / (l2norm v1 * l2norm v2))"
proof -
  have "foldl (\<lambda>(dotProduct, magnitude1, magnitude2) i.
                      (dotProduct + v1 ! i * v2 ! i,
                       magnitude1 + v1 ! i * v1 ! i,
                       magnitude2 + v2 ! i * v2 ! i))
                   (0, 0, 0) [0..<length v1]
        = ((\<Sum>i<length v1. v1 ! i * v2 ! i), sum_list (map (\<lambda>x. x * x) v1),
           sum_list (map (\<lambda>x. x * x) v2))"
    unfolding cos_loop sumsq_nth assms by simp
  then show ?thesis
    unfolding cosineSimilarity_def l2norm_def using assms by simp
qed

lemma cosineSimilarity_self:
  assumes "l2norm v = 1"
  shows "cosineSimilarity v v = 1"
proof -
  from assms have "sum_list (map (\<lambda>x. x * x) v) = 1" by (simp add: l2norm_def)
  then have "(\<Sum>i<length v. v ! i * v ! i) = 1" by (simp add: sumsq_nth)
  then show ?thesis using assms by (simp add: cosineSimilarity_eq)
qed

lemma cosineSimilarity_zero:
  assumes "length v1 \<noteq> length v2 \<or> l2norm v1 = 0 \<or> l2norm v2 = 0"
  shows "cosineSimilarity v1 v2 = 0"
proof (cases "length v1 = length v2")
  case True
  with assms show ?thesis by (simp add: cosineSimilarity_eq)
next
  case False
  then show ?thesis by (simp add: cosineSimilarity_def)
qed

lemma cos_same_text:
  "tokens t \<noteq> [] \<Longrightarrow> cosineSimilarity (generateEmbedding t) (generateEmbedding t) = 1"
  by (rule cosineSimilarity_self) (simp add: l2norm_generateEmbedding)

lemma searchSimilar_take:
  "searchSimilar S q k =
     take k (sort_key (\<lambda>entry. - snd entry)
               (filter (\<lambda>entry. snd entry > 0.1) (scored (generateEmbedding q) S)))"
  by (simp add: searchSimilar_def Let_def)

lemma searchSimilar_length: "length (searchSimilar S q k) \<le> k"
  by (simp add: searchSimilar_take)

lemma searchSimilar_member:
  assumes "r \<in> set (searchSimilar S q k)"
  shows "snd r > 0.1 \<and> fst r \<in> set S
         \<and> snd r = cosineSimilarity (generateEmbedding q) (embedding (fst r))"
proof -
  from assms have "r \<in> set (sort_key (\<lambda>entry. - snd entry)
               (filter (\<lambda>entry. snd entry > 0.1) (scored (generateEmbedding q) S)))"
    unfolding searchSimilar_take by (rule in_set_takeD)
  then show ?thesis by (auto simp: scored_def)
qed

lemma searchSimilar_sorted: "sorted_wrt (\<lambda>a b. snd a \<ge> snd b) (searchSimilar S q k)"
proof -
  let ?L = "sort_key (\<lambda>entry. - snd entry)
              (filter (\<lambda>entry. snd entry > 0.1) (scored (generateEmbedding q) S))"
  have "sorted (map (\<lambda>entry. - snd entry) ?L)" by (rule sorted_sort_key)
  then have "sorted_wrt (\<lambda>a b. snd a \<ge> snd b) ?L" by (simp add: sorted_map)
  then have "sorted_wrt (\<lambda>a b. snd a \<ge> snd b) (take k ?L)" by (rule sorted_wrt_take)
  then show ?thesis by (simp only: searchSimilar_take)
qed

lemma searchSimilar_ties:
  "prefix (filter (\<lambda>r. snd r = v) (searchSimilar S q k))
          (filter (\<lambda>r. snd r = v) (scored (generateEmbedding q) S))"
proof -
  let ?F = "filter (\<lambda>entry. snd entry > 0.1) (scored (generateEmbedding q) S)"
  let ?L = "sort_key (\<lambda>entry. - snd entry) ?F"
  have "filter (\<lambda>r. - snd r = - v) ?L = filter (\<lambda>r. - snd r = - v) ?F"
    by (rule sort_key_stable)
  then have st: "filter (\<lambda>r. snd r = v) ?L = filter (\<lambda>r. snd r = v) ?F" by simp
  have "prefix (take k ?L) ?L" by (rule take_is_prefix)
  then have "prefix (filter (\<lambda>r. snd r = v) (take k ?L)) (filter (\<lambda>r. snd r = v) ?L)"
    by (rule filter_mono_prefix)
  then have a: "prefix (filter (\<lambda>r. snd r = v) (take k ?L)) (filter (\<lambda>r. snd r = v) ?F)"
    unfolding st .
  have b: "prefix (filter (\<lambda>r. snd r = v) ?F)
                  (filter (\<lambda>r. snd r = v) (scored (generateEmbedding q) S))"
  proof (cases "v > 0.1")
    case True
    then have "filter (\<lambda>r. snd r = v) ?F = filter (\<lambda>r. snd r = v) (scored (generateEmbedding q) S)"
      by (auto intro: filter_cong)
    then show ?thesis by simp
  next
    case False
    then have "filter (\<lambda>r. snd r = v) ?F = []"
      by (auto simp: filter_empty_conv)
    then show ?thesis by simp
  qed
  show ?thesis unfolding searchSimilar_take by (rule prefix_order.trans [OF a b])
qed


text \<open>
  C4. For every query, store and count \<open>k\<close>, \<^verbatim>\<open>searchSimilar\<close> returns at most
  \<open>k\<close> results; each is a stored record with its cosine similarity to the fingerprint
  of the query, and that similarity is above 0.1; the results are in non-increasing
  order of similarity; and among records of equal similarity the results keep the
  order of insertion, the earliest first (the results of one similarity are a prefix of
  the records of that similarity in store order). The cosine similarity of two vectors of
  different length, or of which one has Euclidean length 0, is 0.
\<close>

theorem searchSimilar_spec:
  "length (searchSimilar S q k) \<le> k
   \<and> (r \<in> set (searchSimilar S q k) \<longrightarrow>
        snd r > 0.1 \<and> fst r \<in> set S
        \<and> snd r = cosineSimilarity (generateEmbedding q) (embedding (fst r)))
   \<and> sorted_wrt (\<lambda>a b. snd a \<ge> snd b) (searchSimilar S q k)
   \<and> prefix (filter (\<lambda>r. snd r = v) (searchSimilar S q k))
             (filter (\<lambda>r. snd r = v) (scored (generateEmbedding q) S))
   \<and> (length v1 \<noteq> length v2 \<or> l2norm v1 = 0 \<or> l2norm v2 = 0 \<longrightarrow> cosineSimilarity v1 v2 = 0)"
proof -
  have member: "r \<in> set (searchSimilar S q k) \<longrightarrow>
        snd r > 0.1 \<and> fst r \<in> set S
        \<and> snd r = cosineSimilarity (generateEmbedding q) (embedding (fst r))"
  proof
    assume "r \<in> set (searchSimilar S q k)"
    then show "snd r > 0.1 \<and> fst r \<in> set S
        \<and> snd r = cosineSimilarity (generateEmbedding q) (embedding (fst r))"
      by (rule searchSimilar_member)
  qed
  have zero: "length v1 \<noteq> length v2 \<or> l2norm v1 = 0 \<or> l2norm v2 = 0 \<longrightarrow> cosineSimilarity v1 v2 = 0"
  proof
    assume "length v1 \<noteq> length v2 \<or> l2norm v1 = 0 \<or> l2norm v2 = 0"
    then show "cosineSimilarity v1 v2 = 0" by (rule cosineSimilarity_zero)
  qed
  show ?thesis
    by (intro conjI) (fact searchSimilar_length member searchSimilar_sorted searchSimilar_ties zero)+
qed

lemma search_abc_two:
  "searchSimilar [entry_abc 1, entry_abc 2] ''abc'' k = take k [(entry_abc 1, 1), (entry_abc 2, 1)]"
  by (simp add: searchSimilar_take scored_def entry_abc_def cos_same_text tokens_abc)

text \<open>
  The theorem at work: two records with the text of the query both have similarity 1;
  a search for one result returns the one stored first.
\<close>

theorem searchSimilar_spec_witness:
  "searchSimilar [entry_abc 1, entry_abc 2] ''abc'' 1 = [(entry_abc 1, 1)]
   \<and> length (searchSimilar [entry_abc 1, entry_abc 2] ''abc'' 1) \<le> 1
   \<and> (entry_abc 1, 1) \<in> set (searchSimilar [entry_abc 1, entry_abc 2] ''abc'' 1)
   \<and> snd (entry_abc 1, 1 :: real) > 0.1
   \<and> snd (entry_abc 1, 1 :: real)
        = cosineSimilarity (generateEmbedding ''abc'') (embedding (fst (entry_abc 1, 1 :: real)))
   \<and> length [1 :: real] \<noteq> length [3, 4 :: real]
   \<and> cosineSimilarity [1] [3, 4] = 0"
proof -
  note t = searchSimilar_spec [of "[entry_abc 1, entry_abc 2]" "''abc''" 1 "(entry_abc 1, 1)" 1
             "[1]" "[3, 4]"]
  have s: "searchSimilar [entry_abc 1, entry_abc 2] ''abc'' 1 = [(entry_abc 1, 1)]"
    unfolding search_abc_two by simp
  have m: "(entry_abc 1, 1) \<in> set (searchSimilar [entry_abc 1, entry_abc 2] ''abc'' 1)"
    unfolding s by simp
  note r = mp [OF t [THEN conjunct2, THEN conjunct1] m]
  have l: "length [1 :: real] \<noteq> length [3, 4 :: real] \<or> l2norm [1] = 0 \<or> l2norm [3, 4] = 0"
    by simp
  note z = mp [OF t [THEN conjunct2, THEN conjunct2, THEN conjunct2, THEN conjunct2] l]
  have d: "length [1 :: real] \<noteq> length [3, 4 :: real]" by simp
  show ?thesis
    by (intro conjI)
      (fact s t [THEN conjunct1] m r [THEN conjunct1] r [THEN conjunct2, THEN conjunct2] d z)+
qed

subsection \<open>Adding a strategy\<close>








section \<open>Properties of the orchestrator\<close>







lemma makeDecision_independent: "makeDecision rt col syn pf = makeDecision rt col syn' pf'"
  by (simp add: makeDecision_def)















section \<open>Properties of the trading engine\<close>












end
